theory Spec2Isabelle
  imports Main "HOL-Library.Sublist"
begin

section \<open>The documentation scraper of pkg/typegen (scraper.go)\<close>

text \<open>
  The scraper reads a parsed HTML page through the goquery and colly libraries and
  accumulates text in a \<^verbatim>\<open>strings.Builder\<close>. The page is a tree of nodes, a goquery
  selection of one element is that element together with the siblings that follow it,
  and the builder is a string that each callback returns extended. Go strings are byte
  sequences, as \<^typ>\<open>string\<close> is. The \<^verbatim>\<open>verbose\<close> flag only switches logging on and
  is left out.
\<close>

subsection \<open>Strings\<close>

definition NL :: string where
  "NL = [CHR 0x0A]"

text \<open>\<^verbatim>\<open>strings.Contains(s, substr)\<close>: \<open>substr\<close> occurs in \<open>s\<close> as a contiguous piece.\<close>

definition strings_Contains :: "string \<Rightarrow> string \<Rightarrow> bool" where
  "strings_Contains s substr = sublist substr s"

text \<open>
  \<^verbatim>\<open>strings.TrimSpace\<close> cuts the white space of Unicode from both ends of a UTF-8
  string: the six ASCII characters tab, line feed, vertical tab, form feed, carriage
  return, space, and the code points U+0085, U+00A0, U+1680, U+2000 to U+200A, U+2028,
  U+2029, U+202F, U+205F and U+3000, here by their UTF-8 bytes. A byte sequence that is
  not one of these encodings stops the cut, as an invalid or non-space rune does.
\<close>

definition whiteSpace :: "string list" where
  "whiteSpace =
     [[CHR 0x09], [CHR 0x0A], [CHR 0x0B], [CHR 0x0C], [CHR 0x0D], [CHR 0x20],
      [CHR 0xC2, CHR 0x85], [CHR 0xC2, CHR 0xA0], [CHR 0xE1, CHR 0x9A, CHR 0x80],
      [CHR 0xE2, CHR 0x80, CHR 0x80], [CHR 0xE2, CHR 0x80, CHR 0x81],
      [CHR 0xE2, CHR 0x80, CHR 0x82], [CHR 0xE2, CHR 0x80, CHR 0x83],
      [CHR 0xE2, CHR 0x80, CHR 0x84], [CHR 0xE2, CHR 0x80, CHR 0x85],
      [CHR 0xE2, CHR 0x80, CHR 0x86], [CHR 0xE2, CHR 0x80, CHR 0x87],
      [CHR 0xE2, CHR 0x80, CHR 0x88], [CHR 0xE2, CHR 0x80, CHR 0x89],
      [CHR 0xE2, CHR 0x80, CHR 0x8A], [CHR 0xE2, CHR 0x80, CHR 0xA8],
      [CHR 0xE2, CHR 0x80, CHR 0xA9], [CHR 0xE2, CHR 0x80, CHR 0xAF],
      [CHR 0xE2, CHR 0x81, CHR 0x9F], [CHR 0xE3, CHR 0x80, CHR 0x80]]"

text \<open>The first word of \<open>ws\<close> that \<open>s\<close> starts with, if it is not empty.\<close>

fun leading :: "string list \<Rightarrow> string \<Rightarrow> string option" where
  "leading [] s = None"
| "leading (w # ws) s = (if w \<noteq> [] \<and> prefix w s then Some w else leading ws s)"

function trimLeading :: "string list \<Rightarrow> string \<Rightarrow> string" where
  "trimLeading ws s =
     (case leading ws s of
        None \<Rightarrow> s
      | Some w \<Rightarrow> trimLeading ws (drop (length w) s))"
  by pat_completeness auto

termination trimLeading
proof (relation "measure (\<lambda>(ws, s). length s)")
  show "wf (measure (\<lambda>(ws, s). length s))" by simp
next
  fix ws :: "string list" and s w :: string
  assume found: "leading ws s = Some w"
  have "leading vs s = Some w \<Longrightarrow> w \<noteq> [] \<and> prefix w s" for vs
    by (induction vs) (auto split: if_splits)
  with found have "w \<noteq> []" and "prefix w s" by blast+
  then have "0 < length w" and "length w \<le> length s" by (auto simp: prefix_length_le)
  then have "length s - length w < length s" by arith
  then show "((ws, drop (length w) s), (ws, s)) \<in> measure (\<lambda>(ws, s). length s)"
    by simp
qed

declare trimLeading.simps [simp del]

definition strings_TrimSpace :: "string \<Rightarrow> string" where
  "strings_TrimSpace s =
     rev (trimLeading (map rev whiteSpace) (rev (trimLeading whiteSpace s)))"

subsection \<open>The document tree\<close>

text \<open>
  A node of \<^verbatim>\<open>golang.org/x/net/html\<close>: text, an element with its tag, its attributes
  in source order and its children, or a comment. The doctype in front of the root
  element has no text, is no element and is never selected; it can be taken as a comment.
\<close>

datatype node =
    TextNode string
  | CommentNode string
  | ElementNode string "(string \<times> string) list" "node list"

fun isElement :: "node \<Rightarrow> bool" where
  "isElement (ElementNode t as ks) = True"
| "isElement n = False"

fun children :: "node \<Rightarrow> node list" where
  "children (ElementNode t as ks) = ks"
| "children n = []"

text \<open>\<^verbatim>\<open>goquery.NodeName\<close>: the tag of an element, a fixed name for the other nodes.\<close>

fun nodeName :: "node \<Rightarrow> string" where
  "nodeName (ElementNode t as ks) = t"
| "nodeName (TextNode d) = ''#text''"
| "nodeName (CommentNode d) = ''#comment''"

text \<open>The text of a node is the text of the text nodes below it, in document order.\<close>

fun getNodeText :: "node \<Rightarrow> string" where
  "getNodeText (TextNode d) = d"
| "getNodeText (CommentNode d) = []"
| "getNodeText (ElementNode t as ks) = concat (map getNodeText ks)"

text \<open>
  \<^verbatim>\<open>Selection.Attr\<close> reads the first attribute of that name; the callers drop the
  flag that says whether there is one, and an absent attribute reads as the empty string.
\<close>

fun attributes :: "node \<Rightarrow> (string \<times> string) list" where
  "attributes (ElementNode t as ks) = as"
| "attributes n = []"

definition attrOrEmpty :: "node \<Rightarrow> string \<Rightarrow> string" where
  "attrOrEmpty n k = (case map_of (attributes n) k of None \<Rightarrow> [] | Some v \<Rightarrow> v)"

text \<open>
  A selection of one node: the node and the siblings after it, in document order.
  \<^verbatim>\<open>Selection.Next\<close> is the next sibling that is an element; text and comments between
  elements are passed over.
\<close>

record selection =
  Node :: node
  Following :: "node list"

definition Next :: "selection \<Rightarrow> selection option" where
  "Next s =
     (case dropWhile (\<lambda>n. \<not> isElement n) (Following s) of
        [] \<Rightarrow> None
      | n # ns \<Rightarrow> Some \<lparr>Node = n, Following = ns\<rparr>)"

text \<open>\<^verbatim>\<open>Selection.NextAll\<close>: all the siblings after the node that are elements.\<close>

fun followingElements :: "node list \<Rightarrow> selection list" where
  "followingElements [] = []"
| "followingElements (n # ns) =
     (if isElement n then \<lparr>Node = n, Following = ns\<rparr> # followingElements ns
      else followingElements ns)"

definition NextAll :: "selection \<Rightarrow> selection list" where
  "NextAll s = followingElements (Following s)"

definition Text :: "selection \<Rightarrow> string" where
  "Text s = getNodeText (Node s)"

definition NodeName :: "selection \<Rightarrow> string" where
  "NodeName s = nodeName (Node s)"

definition Attr :: "selection \<Rightarrow> string \<Rightarrow> string" where
  "Attr s k = attrOrEmpty (Node s) k"

text \<open>Every element below a list of sibling nodes, in document order, as a selection.\<close>

fun elementsIn :: "node list \<Rightarrow> selection list" where
  "elementsIn [] = []"
| "elementsIn (ElementNode t as ks # ns) =
     \<lparr>Node = ElementNode t as ks, Following = ns\<rparr> # elementsIn ks @ elementsIn ns"
| "elementsIn (n # ns) = elementsIn ns"

subsection \<open>What the libraries supply\<close>

text \<open>
  The functions of the libraries that are not modelled here are arguments of the model:
  \<^verbatim>\<open>html.Render\<close> of one node (\<open>None\<close> when it reports an error),
  \<^verbatim>\<open>strings.ToLower\<close>, \<^verbatim>\<open>url.ParseRequestURI\<close> (the error text when the URL is
  refused), the page that the \<open>k\<close>-th request of the call for a URL receives, and the
  reading of a selector text by the selector library, which is asked only for the
  patterns that a symbol with a quote, a backslash or a line break makes (see
  \<open>symbolSelector\<close> below).
\<close>

datatype response = VisitError string | Page "node list"

text \<open>
  The selectors that the scraper writes, by their shape: a tag, a class, an id, an
  attribute with a value, the wildcard, and a comma-separated group.
\<close>

datatype selector =
    Tag string
  | Class string
  | Id string
  | AttrEq string string
  | Wildcard
  | Group "selector list"

record env =
  Render :: "node \<Rightarrow> string option"
  ToLower :: "string \<Rightarrow> string"
  ParseRequestURI :: "string \<Rightarrow> string option"
  Visit :: "string \<Rightarrow> nat \<Rightarrow> response"
  Compile :: "string \<Rightarrow> selector"

text \<open>
  \<^verbatim>\<open>Selection.Html\<close> renders the children of the node one after the other; when one
  of them fails the text is empty and the error is returned.
\<close>

fun renderAll :: "env \<Rightarrow> node list \<Rightarrow> string option" where
  "renderAll e [] = Some []"
| "renderAll e (k # ks) =
     (case Render e k of
        None \<Rightarrow> None
      | Some x \<Rightarrow> (case renderAll e ks of None \<Rightarrow> None | Some y \<Rightarrow> Some (x @ y)))"

definition Html :: "env \<Rightarrow> selection \<Rightarrow> string option" where
  "Html e s = renderAll e (children (Node s))"

text \<open>\<^verbatim>\<open>html, _ := s.Html()\<close>: the error is dropped and the text is empty then.\<close>

definition HtmlText :: "env \<Rightarrow> selection \<Rightarrow> string" where
  "HtmlText e s = (case Html e s of None \<Rightarrow> [] | Some h \<Rightarrow> h)"

subsection \<open>Selectors\<close>

text \<open>
  The pattern \<^verbatim>\<open>[key='%s']\<close> with a value in place of \<^verbatim>\<open>%s\<close>. Between the
  quotes the library takes every character as it stands except the quote, the backslash,
  carriage return, line feed and form feed; a value without these is read as the test
  that the attribute has this value. For any other value the reading is the library's;
  a pattern that it cannot read matches nothing, as the empty group does.
\<close>

definition plainValue :: "string \<Rightarrow> bool" where
  "plainValue v =
     list_all (\<lambda>c. c \<notin> set [CHR 0x27, CHR 0x5C, CHR 0x0D, CHR 0x0A, CHR 0x0C]) v"

definition attrPattern :: "string \<Rightarrow> string \<Rightarrow> string" where
  "attrPattern key v = ''['' @ key @ ''='' @ [CHR 0x27] @ v @ [CHR 0x27] @ '']''"

definition symbolSelector :: "env \<Rightarrow> string \<Rightarrow> string \<Rightarrow> selector" where
  "symbolSelector e key v =
     (if plainValue v then AttrEq key v else Compile e (attrPattern key v))"

text \<open>
  A class selector holds when one of the words of a \<^verbatim>\<open>class\<close> attribute, cut at
  space, tab, carriage return, line feed and form feed, is the class.
\<close>

definition isClassSep :: "char \<Rightarrow> bool" where
  "isClassSep c = (c \<in> set [CHR 0x20, CHR 0x09, CHR 0x0D, CHR 0x0A, CHR 0x0C])"

function matchInclude :: "string \<Rightarrow> string \<Rightarrow> bool" where
  "matchInclude val s =
     (if s = [] then False
      else (let w = takeWhile (\<lambda>c. \<not> isClassSep c) s;
                rest = dropWhile (\<lambda>c. \<not> isClassSep c) s
            in if rest = [] then s = val
               else if w = val then True
               else matchInclude val (tl rest)))"
  by pat_completeness auto
termination
proof (relation "measure (\<lambda>(val, s). length s)")
  show "wf (measure (\<lambda>(val, s). length s))" by simp
next
  fix val s w :: string and rest :: string
  assume "s \<noteq> []" and "rest = dropWhile (\<lambda>c. \<not> isClassSep c) s" and "rest \<noteq> []"
  then have "length (tl rest) < length rest" and "length rest \<le> length s"
    by (simp_all add: length_dropWhile_le)
  then show "((val, tl rest), (val, s)) \<in> measure (\<lambda>(val, s). length s)"
    by simp
qed

declare matchInclude.simps [simp del]

text \<open>An attribute test of a selector looks at every attribute of that name.\<close>

definition matchAttribute :: "node \<Rightarrow> string \<Rightarrow> (string \<Rightarrow> bool) \<Rightarrow> bool" where
  "matchAttribute n key f = list_ex (\<lambda>(k, v). k = key \<and> f v) (attributes n)"

fun matches :: "selector \<Rightarrow> node \<Rightarrow> bool" where
  "matches (Tag t) n = (isElement n \<and> nodeName n = t)"
| "matches (Class c) n = matchAttribute n ''class'' (matchInclude c)"
| "matches (Id i) n = matchAttribute n ''id'' (\<lambda>v. v = i)"
| "matches (AttrEq k x) n = matchAttribute n k (\<lambda>v. v = x)"
| "matches Wildcard n = isElement n"
| "matches (Group ss) n = list_ex (\<lambda>s. matches s n) ss"

text \<open>
  \<^verbatim>\<open>Selection.Find\<close>: the elements below the node that the selector matches, in
  document order; on the document, every element of the page is below it.
\<close>

definition Find :: "selection \<Rightarrow> selector \<Rightarrow> selection list" where
  "Find s sel = filter (\<lambda>d. matches sel (Node d)) (elementsIn (children (Node s)))"

definition FindInPage :: "node list \<Rightarrow> selector \<Rightarrow> selection list" where
  "FindInPage doc sel = filter (\<lambda>d. matches sel (Node d)) (elementsIn doc)"

subsection \<open>Headings and content elements\<close>

text \<open>Maximum depth for recursion when extracting content.\<close>

definition maxDepth :: int where
  "maxDepth = 3"

definition isHeadingElement :: "selection \<Rightarrow> bool" where
  "isHeadingElement s =
     (let nodeName = NodeName s
      in nodeName = ''h1'' \<or> nodeName = ''h2'' \<or> nodeName = ''h3'' \<or>
         nodeName = ''h4'' \<or> nodeName = ''h5'' \<or> nodeName = ''h6'')"

definition getHeadingLevel :: "selection \<Rightarrow> int" where
  "getHeadingLevel s =
     (let nodeName = NodeName s
      in if nodeName = ''h1'' then 1
         else if nodeName = ''h2'' then 2
         else if nodeName = ''h3'' then 3
         else if nodeName = ''h4'' then 4
         else if nodeName = ''h5'' then 5
         else if nodeName = ''h6'' then 6
         else 0)"

definition contentElements :: "string list" where
  "contentElements =
     [''div'', ''section'', ''article'', ''main'', ''p'', ''pre'', ''code'',
      ''table'', ''ul'', ''ol'', ''dl'', ''blockquote'', ''figure'', ''details'',
      ''summary'', ''aside'', ''header'', ''footer'', ''nav'']"

definition isContentElement :: "string \<Rightarrow> bool" where
  "isContentElement name = list_ex (\<lambda>elem. name = elem) contentElements"

subsection \<open>The container heuristic\<close>

definition headingSelector :: selector where
  "headingSelector =
     Group [Tag ''h1'', Tag ''h2'', Tag ''h3'', Tag ''h4'', Tag ''h5'', Tag ''h6'']"

definition relevantAttrs :: "env \<Rightarrow> selection \<Rightarrow> string list" where
  "relevantAttrs e s =
     (let id = Attr s ''id'';
          name = Attr s ''name'';
          dataFunction = Attr s ''data-function'';
          dataMethod = Attr s ''data-method''
      in [id, name, dataFunction, dataMethod,
          ToLower e id, ToLower e name, ToLower e dataFunction, ToLower e dataMethod])"

definition attrNamesFunction :: "string \<Rightarrow> string \<Rightarrow> bool" where
  "attrNamesFunction funcName attr =
     (attr = funcName \<or>
      attr = funcName @ ''-method'' \<or>
      attr = funcName @ ''-function'' \<or>
      attr = ''method-'' @ funcName \<or>
      attr = ''function-'' @ funcName)"

definition isFunctionContainer :: "env \<Rightarrow> selection \<Rightarrow> string \<Rightarrow> bool" where
  "isFunctionContainer e s funcName =
     (if \<not> strings_Contains (Text s) funcName then False
      else if isHeadingElement s then True
      else if list_ex (attrNamesFunction funcName) (relevantAttrs e s) then True
      else (let nodeName = NodeName s
            in if nodeName = ''section'' \<or> nodeName = ''div'' \<or> nodeName = ''article''
               then list_ex (\<lambda>heading. strings_TrimSpace (Text heading) = funcName)
                      (Find s headingSelector)
               else False))"

subsection \<open>The section of a function\<close>

text \<open>
  The loop over the siblings after a heading: \<open>next\<close> is the selection that
  \<^verbatim>\<open>Next\<close> returned, \<open>None\<close> when it is empty, and \<open>content\<close> the text written so
  far.
\<close>

function siblingsUntil :: "env \<Rightarrow> int \<Rightarrow> selection option \<Rightarrow> string \<Rightarrow> string" where
  "siblingsUntil e headingLevel next content =
     (case next of
        None \<Rightarrow> content
      | Some nx \<Rightarrow>
          if isHeadingElement nx \<and> getHeadingLevel nx \<le> headingLevel then content
          else siblingsUntil e headingLevel (Next nx) (content @ HtmlText e nx @ NL))"
  by pat_completeness auto
termination
proof (relation "measure (\<lambda>(e, headingLevel, next, content).
          case next of None \<Rightarrow> 0 | Some nx \<Rightarrow> Suc (length (Following nx)))")
  show "wf (measure (\<lambda>(e, headingLevel, next, content).
          case next of None \<Rightarrow> 0 | Some nx \<Rightarrow> Suc (length (Following nx))))"
    by simp
next
  fix e :: env and headingLevel :: int and cur :: "selection option"
    and content :: string and nx :: selection
  have shorter: "length ns < length (Following nx)"
    if "dropWhile (\<lambda>n. \<not> isElement n) (Following nx) = n # ns" for n ns
  proof -
    have "length (n # ns) \<le> length (Following nx)"
      using length_dropWhile_le [of "\<lambda>n. \<not> isElement n" "Following nx"] that by simp
    then show ?thesis by simp
  qed
  show "((e, headingLevel, Next nx, content @ HtmlText e nx @ NL),
          (e, headingLevel, cur, content))
        \<in> measure (\<lambda>(e, headingLevel, next, content).
             case next of None \<Rightarrow> 0 | Some nx \<Rightarrow> Suc (length (Following nx)))"
    if "cur = Some nx"
    using that shorter by (auto simp: Next_def split: list.splits)
qed

declare siblingsUntil.simps [simp del]

definition codeSelector :: selector where
  "codeSelector = Group [Tag ''pre'', Tag ''code'']"

text \<open>
  The depth bound is an argument, so that what the result owes to it can be stated; the
  callers pass \<^const>\<open>maxDepth\<close>.
\<close>

definition extractFunctionSection :: "int \<Rightarrow> env \<Rightarrow> selection \<Rightarrow> string \<Rightarrow> int \<Rightarrow> string" where
  "extractFunctionSection bound e s funcName depth =
     (if depth > bound then []
      else if isHeadingElement s \<and> strings_Contains (Text s) funcName then
        (let headingLevel = getHeadingLevel s;
             headingHTML = HtmlText e s;
             content = ''<'' @ NodeName s @ ''>'' @ headingHTML @ ''</'' @ NodeName s @ ''>'' @ NL
         in siblingsUntil e headingLevel (Next s) content)
      else
        (let content =
               fold (\<lambda>code content.
                       if strings_Contains (Text code) funcName
                       then content @ HtmlText e code @ NL else content)
                 (Find s codeSelector) []
         in if NodeName s = ''table'' \<or> NodeName s = ''ul'' \<or> NodeName s = ''ol''
            then (if strings_Contains (Text s) funcName
                  then content @ HtmlText e s @ NL else content)
            else content))"

text \<open>The search for containers among the elements below the selection.\<close>

definition searchChildren :: "int \<Rightarrow> env \<Rightarrow> selection \<Rightarrow> string \<Rightarrow> string" where
  "searchChildren bound e s funcName =
     fold (\<lambda>child content.
             if isFunctionContainer e child funcName
             then (let section = extractFunctionSection bound e child funcName 0
                   in if section \<noteq> [] then content @ section @ NL @ NL else content)
             else content)
       (Find s Wildcard) []"

definition extractRelevantSection :: "int \<Rightarrow> env \<Rightarrow> selection \<Rightarrow> string \<Rightarrow> string" where
  "extractRelevantSection bound e s funcName =
     (if isFunctionContainer e s funcName then
        (let functionSection = extractFunctionSection bound e s funcName 0
         in if functionSection \<noteq> [] then functionSection
            else (case Html e s of
                    Some html \<Rightarrow> html
                  | None \<Rightarrow> searchChildren bound e s funcName))
      else searchChildren bound e s funcName)"

subsection \<open>The two passes over the page\<close>

text \<open>
  A collector holds its \<^verbatim>\<open>OnHTML\<close> callbacks in the order of registration. When the
  page has arrived it takes the callbacks in that order and calls each on every element
  that its selector matches, in document order. A callback is a function from the
  element and the builder to the builder.
\<close>

type_synonym callback = "selection \<Rightarrow> string \<Rightarrow> string"

definition handleOnHTML :: "(selector \<times> callback) list \<Rightarrow> node list \<Rightarrow> string \<Rightarrow> string" where
  "handleOnHTML callbacks doc content =
     fold (\<lambda>(sel, f) content. fold f (FindInPage doc sel) content) callbacks content"

definition titleCallback :: callback where
  "titleCallback el content = content @ ''# '' @ Text el @ NL @ NL"

definition genericSelectors :: "selector list" where
  "genericSelectors =
     [Tag ''main'', Tag ''article'', Class ''documentation'', Class ''docs'',
      Class ''content'', Class ''main-content'', Class ''api-docs'',
      Class ''api-reference'', Id ''documentation'', Class ''markdown-body'',
      AttrEq ''role'' ''main'', Class ''api-content'']"

definition selectors :: "env \<Rightarrow> string \<Rightarrow> selector list" where
  "selectors e funcName =
     (if funcName \<noteq> [] then
        [symbolSelector e ''id'' funcName,
         symbolSelector e ''id'' (funcName @ ''-method''),
         symbolSelector e ''id'' (funcName @ ''-function''),
         symbolSelector e ''id'' (''method-'' @ funcName),
         symbolSelector e ''id'' (''function-'' @ funcName),
         symbolSelector e ''name'' funcName,
         symbolSelector e ''data-function'' funcName,
         symbolSelector e ''data-method'' funcName] @ genericSelectors
      else genericSelectors)"

definition blockSelector :: selector where
  "blockSelector = Group [Tag ''pre'', Tag ''code'', Tag ''table'']"

definition containerCallback :: "env \<Rightarrow> string \<Rightarrow> callback" where
  "containerCallback e funcName el content =
     (if funcName \<noteq> [] then
        (if strings_Contains (Text el) funcName then
           (let extractedText = extractRelevantSection maxDepth e el funcName
            in if extractedText \<noteq> [] then content @ extractedText @ NL @ NL else content)
         else content)
      else
        (let text = strings_TrimSpace (Text el);
             content = (if text \<noteq> [] then content @ text @ NL @ NL else content)
         in fold (\<lambda>s content.
                    case Html e s of
                      Some html \<Rightarrow> content @ NL @ html @ NL
                    | None \<Rightarrow> content)
              (Find el blockSelector) content))"

definition codeCallback :: "string \<Rightarrow> callback" where
  "codeCallback funcName el content =
     (if funcName \<noteq> [] \<and> \<not> strings_Contains (Text el) funcName then content
      else (let text = Text el
            in if text \<noteq> [] then content @ NL @ ''```'' @ NL @ text @ NL @ ''```'' @ NL
               else content))"

definition firstPass :: "env \<Rightarrow> node list \<Rightarrow> string \<Rightarrow> string" where
  "firstPass e doc funcName =
     handleOnHTML
       ([(Tag ''title'', titleCallback)] @
        map (\<lambda>selector. (selector, containerCallback e funcName)) (selectors e funcName) @
        [(codeSelector, codeCallback funcName)])
       doc []"

definition fallbackCallback :: "env \<Rightarrow> string \<Rightarrow> callback" where
  "fallbackCallback e funcName el content =
     (if strings_Contains (Text el) funcName then
        (if isContentElement (NodeName el) then
           (let extractedText = extractRelevantSection maxDepth e el funcName
            in if extractedText \<noteq> [] then content @ extractedText @ NL @ NL else content)
         else content)
      else content)"

definition secondPass :: "env \<Rightarrow> node list \<Rightarrow> string \<Rightarrow> string" where
  "secondPass e doc funcName = handleOnHTML [(Wildcard, fallbackCallback e funcName)] doc []"

subsection \<open>ScrapeDocumentation\<close>

datatype error =
    InvalidURL string
  | ErrorVisitingURL string
  | ErrorInSecondVisit string
  | FunctionNotFound string
  | NoContentExtracted

text \<open>
  The call returns the text or an error; beside it the model counts the requests that
  the call has sent, so that the second pass can be told from outside.
\<close>

definition ScrapeDocumentation :: "env \<Rightarrow> string \<Rightarrow> string \<Rightarrow> (error + string) \<times> nat" where
  "ScrapeDocumentation e docURL funcName =
     (case ParseRequestURI e docURL of
        Some err \<Rightarrow> (Inl (InvalidURL err), 0)
      | None \<Rightarrow>
         (case Visit e docURL 0 of
            VisitError err \<Rightarrow> (Inl (ErrorVisitingURL err), 1)
          | Page doc \<Rightarrow>
             (let result = firstPass e doc funcName;
                  second =
                    (if funcName \<noteq> [] \<and> \<not> strings_Contains result funcName then
                       (case Visit e docURL 1 of
                          VisitError err \<Rightarrow> Inl err
                        | Page doc2 \<Rightarrow> Inr (secondPass e doc2 funcName, 2))
                     else Inr (result, 1))
              in case second of
                   Inl err \<Rightarrow> (Inl (ErrorInSecondVisit err), 2)
                 | Inr (result, requests) \<Rightarrow>
                     if result = [] then
                       (if funcName \<noteq> [] then (Inl (FunctionNotFound funcName), requests)
                        else (Inl NoContentExtracted, requests))
                     else (Inr result, requests))))"

subsection \<open>Sample libraries for concrete pages\<close>

text \<open>
  A serialiser without escaping, and the lower-casing of ASCII letters: what
  \<^verbatim>\<open>html.Render\<close> and \<^verbatim>\<open>strings.ToLower\<close> do on pages whose text and attribute
  values are plain ASCII without markup characters and whose elements have an end tag.
  Every URL is accepted and every request brings the same page. The symbols of the
  sample pages are plain, so no selector text is handed to the library.
\<close>

fun plainRender :: "node \<Rightarrow> string" where
  "plainRender (TextNode d) = d"
| "plainRender (CommentNode d) = ''<!--'' @ d @ ''-->''"
| "plainRender (ElementNode t as ks) =
     ''<'' @ t @ concat (map (\<lambda>(k, v). '' '' @ k @ ''=\"'' @ v @ ''\"'') as) @ ''>'' @
     concat (map plainRender ks) @ ''</'' @ t @ ''>''"

definition asciiLower :: "char \<Rightarrow> char" where
  "asciiLower c =
     (case map_of (zip ''ABCDEFGHIJKLMNOPQRSTUVWXYZ'' ''abcdefghijklmnopqrstuvwxyz'') c of
        None \<Rightarrow> c
      | Some l \<Rightarrow> l)"

definition sampleEnv :: "node list \<Rightarrow> env" where
  "sampleEnv doc =
     \<lparr>Render = (\<lambda>n. Some (plainRender n)),
      ToLower = map asciiLower,
      ParseRequestURI = (\<lambda>u. None),
      Visit = (\<lambda>u k. Page doc),
      Compile = (\<lambda>pattern. Group [])\<rparr>"

subsection \<open>Sample pages\<close>

text \<open>
  The page of the first end-to-end scenario, with a stray text node and a deeper heading
  added inside the section, seen from its first heading.
\<close>

definition userSection :: selection where
  "userSection =
     \<lparr>Node = ElementNode ''h2'' [(''id'', ''createUser'')] [TextNode ''createUser''],
      Following =
        [TextNode ''stray'',
         ElementNode ''p'' [] [TextNode ''Creates a user.''],
         ElementNode ''h3'' [] [TextNode ''Notes''],
         ElementNode ''h2'' [] [TextNode ''deleteUser''],
         ElementNode ''p'' [] [TextNode ''Deletes a user.'']]\<rparr>"

text \<open>
  Pages as the parser delivers them, each a body inside the \<^verbatim>\<open>html\<close> element: a page
  without content, a page whose only content is a heading that names \<^verbatim>\<open>foo\<close>, the
  same heading inside a \<^verbatim>\<open>nav\<close>, an empty \<^verbatim>\<open>pre\<close> inside \<^verbatim>\<open>main\<close>, a
  table that names \<^verbatim>\<open>foo\<close>, and a page with a title and code blocks.
\<close>

definition inBody :: "node list \<Rightarrow> node list" where
  "inBody ns = [ElementNode ''html'' [] [ElementNode ''head'' [] [], ElementNode ''body'' [] ns]]"

definition barePage :: "node list" where
  "barePage = inBody []"

definition headingPage :: "node list" where
  "headingPage = inBody [ElementNode ''h2'' [] [TextNode ''foo'']]"

definition navPage :: "node list" where
  "navPage = inBody [ElementNode ''nav'' [] [ElementNode ''h2'' [] [TextNode ''foo'']]]"

definition prePage :: "node list" where
  "prePage = inBody [ElementNode ''main'' [] [ElementNode ''pre'' [] []]]"

definition tablePage :: "node list" where
  "tablePage =
     inBody [ElementNode ''table'' [] [ElementNode ''tr'' [] [ElementNode ''td'' [] [TextNode ''foo'']]]]"

definition titledPage :: "node list" where
  "titledPage =
     [ElementNode ''html'' []
        [ElementNode ''head'' [] [ElementNode ''title'' [] [TextNode ''API'']],
         ElementNode ''body'' []
           [ElementNode ''p'' [] [TextNode ''see foo''],
            ElementNode ''pre'' [] [TextNode ''foo(1)''],
            ElementNode ''code'' [] [TextNode ''bar(2)''],
            ElementNode ''pre'' [] []]]]"

text \<open>
  Single elements: the heading of the second page, a \<^verbatim>\<open>div\<close> whose id is the
  symbol and whose text is not, the \<^verbatim>\<open>div\<close> of the second end-to-end scenario with
  its id in mixed case, the same without the id, a section with a heading that is the
  symbol between spaces, a \<^verbatim>\<open>div\<close> whose id is the symbol in capitals, a
  \<^verbatim>\<open>div\<close> whose paragraph is the symbol between spaces, and a \<^verbatim>\<open>div\<close> with a
  code fragment that names the symbol.
\<close>

definition fooHeading :: selection where
  "fooHeading = \<lparr>Node = ElementNode ''h2'' [] [TextNode ''foo''], Following = []\<rparr>"

definition attrOnlyDiv :: selection where
  "attrOnlyDiv =
     \<lparr>Node = ElementNode ''div'' [(''id'', ''foo'')] [TextNode ''bar''], Following = []\<rparr>"

definition methodDiv :: selection where
  "methodDiv =
     \<lparr>Node = ElementNode ''div'' [(''id'', ''Foo-Method'')]
               [ElementNode ''h3'' [] [TextNode ''Something else''],
                ElementNode ''p'' [] [TextNode ''mentions foo only once'']],
      Following = []\<rparr>"

definition proseDiv :: selection where
  "proseDiv =
     \<lparr>Node = ElementNode ''div'' []
               [ElementNode ''h3'' [] [TextNode ''Something else''],
                ElementNode ''p'' [] [TextNode ''mentions foo only once'']],
      Following = []\<rparr>"

definition exactSection :: selection where
  "exactSection =
     \<lparr>Node = ElementNode ''section'' []
               [ElementNode ''h3'' [] [TextNode '' foo ''],
                ElementNode ''p'' [] [TextNode ''does things'']],
      Following = []\<rparr>"

definition shoutDiv :: selection where
  "shoutDiv =
     \<lparr>Node = ElementNode ''div'' [(''id'', ''FOO'')]
               [ElementNode ''p'' [] [TextNode ''foo does things'']],
      Following = []\<rparr>"

definition paragraphDiv :: selection where
  "paragraphDiv =
     \<lparr>Node = ElementNode ''div'' [] [ElementNode ''p'' [] [TextNode '' foo '']],
      Following = []\<rparr>"

definition codeDiv :: selection where
  "codeDiv =
     \<lparr>Node = ElementNode ''div'' [(''id'', ''foo'')]
               [ElementNode ''p'' [] [TextNode ''foo does things''],
                ElementNode ''code'' [] [TextNode ''foo()'']],
      Following = []\<rparr>"

section \<open>Properties\<close>

subsection \<open>Substrings and the text of nodes\<close>

lemma trimLeading_suffix: "suffix (trimLeading ws s) s"
proof (induction ws s rule: trimLeading.induct)
  case (1 ws s)
  show ?case
  proof (cases "leading ws s")
    case None
    then show ?thesis by (simp add: trimLeading.simps [of ws s])
  next
    case (Some w)
    then have "suffix (trimLeading ws (drop (length w) s)) (drop (length w) s)"
      using "1.IH" by simp
    then have "suffix (trimLeading ws (drop (length w) s)) s"
      using suffix_drop suffix_order.trans by blast
    with Some show ?thesis by (simp add: trimLeading.simps [of ws s])
  qed
qed

lemma TrimSpace_sublist: "sublist (strings_TrimSpace s) s"
proof -
  let ?l = "trimLeading whiteSpace s"
  have "suffix (trimLeading (map rev whiteSpace) (rev ?l)) (rev ?l)"
    by (rule trimLeading_suffix)
  then have "prefix (strings_TrimSpace s) ?l"
    by (simp add: strings_TrimSpace_def suffix_to_prefix)
  then have "sublist (strings_TrimSpace s) ?l" by (rule prefix_imp_sublist)
  moreover have "sublist ?l s" using trimLeading_suffix by (rule suffix_imp_sublist)
  ultimately show ?thesis by (rule sublist_order.order.trans)
qed

lemma sublist_concat_member: "x \<in> set xs \<Longrightarrow> sublist x (concat xs)"
  by (induction xs) (auto intro: sublist_order.order.trans)

lemma elementsIn_text:
  "d \<in> set (elementsIn ns) \<Longrightarrow> sublist (getNodeText (Node d)) (concat (map getNodeText ns))"
proof (induction ns arbitrary: d rule: elementsIn.induct)
  case (2 t as ks ns)
  from "2.prems" consider "d = \<lparr>Node = ElementNode t as ks, Following = ns\<rparr>"
    | "d \<in> set (elementsIn ks)" | "d \<in> set (elementsIn ns)" by auto
  then show ?case
  proof cases
    case 1
    then show ?thesis by simp
  next
    case 2
    then have "sublist (getNodeText (Node d)) (concat (map getNodeText ks))" by (rule "2.IH"(1))
    then show ?thesis by (auto intro: sublist_order.order.trans)
  next
    case 3
    then have "sublist (getNodeText (Node d)) (concat (map getNodeText ns))" by (rule "2.IH"(2))
    then show ?thesis by (auto intro: sublist_order.order.trans)
  qed
qed (auto intro: sublist_order.order.trans)

lemma children_text: "getNodeText n = concat (map getNodeText (children n)) \<or> children n = []"
  by (cases n) auto

lemma Find_text: "d \<in> set (Find s sel) \<Longrightarrow> sublist (Text d) (Text s)"
proof -
  assume "d \<in> set (Find s sel)"
  then have d: "d \<in> set (elementsIn (children (Node s)))" by (simp add: Find_def)
  then have "children (Node s) \<noteq> []" by auto
  then have "getNodeText (Node s) = concat (map getNodeText (children (Node s)))"
    using children_text [of "Node s"] by simp
  with elementsIn_text [OF d] show ?thesis by (simp add: Text_def)
qed

lemma fold_append_if:
  "fold (\<lambda>x acc. if P x then acc @ g x else acc) xs acc = acc @ concat (map g (filter P xs))"
  by (induction xs arbitrary: acc) simp_all

lemma fold_appending:
  assumes "\<And>x c. f x c = c @ f x []"
  shows "fold f xs content = content @ concat (map (\<lambda>x. f x []) xs)"
proof (induction xs arbitrary: content)
  case Nil
  show ?case by simp
next
  case (Cons x xs)
  have "fold f (x # xs) content = fold f xs (f x content)" by simp
  also have "\<dots> = f x content @ concat (map (\<lambda>x. f x []) xs)" by (rule Cons.IH)
  also have "f x content = content @ f x []" by (rule assms)
  finally show ?case by simp
qed

subsection \<open>The walk over the siblings of a heading\<close>

lemma Next_Nil: "Following s = [] \<Longrightarrow> Next s = None"
  by (simp add: Next_def)

lemma Next_skip:
  "Following s = n # ns \<Longrightarrow> \<not> isElement n \<Longrightarrow> Following t = ns \<Longrightarrow> Next s = Next t"
  by (simp add: Next_def)

lemma Next_element:
  "Following s = n # ns \<Longrightarrow> isElement n \<Longrightarrow> Next s = Some \<lparr>Node = n, Following = ns\<rparr>"
  by (simp add: Next_def)

lemma siblingsUntil_None: "siblingsUntil e lvl None content = content"
  by (simp add: siblingsUntil.simps)

lemma siblingsUntil_Some:
  "siblingsUntil e lvl (Some nx) content =
     (if isHeadingElement nx \<and> getHeadingLevel nx \<le> lvl then content
      else siblingsUntil e lvl (Next nx) (content @ HtmlText e nx @ NL))"
  by (simp add: siblingsUntil.simps [of e lvl "Some nx"])

lemma siblingsUntil_follow:
  "Following s = ns \<Longrightarrow>
   siblingsUntil e lvl (Next s) content =
     content @ concat (map (\<lambda>x. HtmlText e x @ NL)
       (takeWhile (\<lambda>x. \<not> (isHeadingElement x \<and> getHeadingLevel x \<le> lvl))
          (followingElements ns)))"
proof (induction ns arbitrary: s content)
  case Nil
  then show ?case by (simp add: Next_Nil siblingsUntil_None)
next
  case (Cons n ns)
  let ?nx = "\<lparr>Node = n, Following = ns\<rparr>"
  have follow: "Following ?nx = ns" by simp
  show ?case
  proof (cases "isElement n")
    case False
    then have "Next s = Next ?nx" using Cons.prems by (simp add: Next_skip)
    then show ?thesis using Cons.IH [OF follow, of content] False by simp
  next
    case True
    then have nx: "Next s = Some ?nx" using Cons.prems by (simp add: Next_element)
    show ?thesis
    proof (cases "isHeadingElement ?nx \<and> getHeadingLevel ?nx \<le> lvl")
      case True
      with \<open>isElement n\<close> show ?thesis by (simp add: nx siblingsUntil_Some)
    next
      case False
      have "siblingsUntil e lvl (Next s) content =
              siblingsUntil e lvl (Next ?nx) (content @ HtmlText e ?nx @ NL)"
        by (simp only: nx siblingsUntil_Some False if_False)
      also have "\<dots> = (content @ HtmlText e ?nx @ NL) @
              concat (map (\<lambda>x. HtmlText e x @ NL)
                (takeWhile (\<lambda>x. \<not> (isHeadingElement x \<and> getHeadingLevel x \<le> lvl))
                  (followingElements ns)))"
        by (rule Cons.IH [OF follow])
      finally show ?thesis using False \<open>isElement n\<close> by auto
    qed
  qed
qed

lemma siblingsUntil_NextAll:
  "siblingsUntil e lvl (Next s) content =
     content @ concat (map (\<lambda>x. HtmlText e x @ NL)
       (takeWhile (\<lambda>x. \<not> (isHeadingElement x \<and> getHeadingLevel x \<le> lvl)) (NextAll s)))"
  by (simp add: NextAll_def siblingsUntil_follow)

lemma isFunctionContainer_heading:
  "isHeadingElement s \<Longrightarrow> strings_Contains (Text s) funcName \<Longrightarrow> isFunctionContainer e s funcName"
  by (simp add: isFunctionContainer_def)

text \<open>
  C1. For a heading whose text contains the symbol, the section extractor returns the
  heading, rendered between its own tags, and then the rendered content of the sibling
  elements that follow it, in document order, each with a line break after it, up to
  but not including the first of them that is a heading of the same or a smaller level
  number. Every sibling element before that heading contributes, nothing at or after it
  does. Siblings are sibling elements: \<^verbatim>\<open>Next\<close> passes over text and comments that
  stand between them. The relevant-section extractor returns the same text for such a
  heading.
\<close>

theorem heading_section:
  assumes "isHeadingElement s" and "strings_Contains (Text s) funcName"
  shows "extractFunctionSection maxDepth e s funcName 0 =
           ''<'' @ NodeName s @ ''>'' @ HtmlText e s @ ''</'' @ NodeName s @ ''>'' @ NL @
           concat (map (\<lambda>x. HtmlText e x @ NL)
             (takeWhile (\<lambda>x. \<not> (isHeadingElement x \<and> getHeadingLevel x \<le> getHeadingLevel s))
                (NextAll s))) \<and>
         extractRelevantSection maxDepth e s funcName =
           extractFunctionSection maxDepth e s funcName 0"
proof -
  have first: "extractFunctionSection maxDepth e s funcName 0 =
           ''<'' @ NodeName s @ ''>'' @ HtmlText e s @ ''</'' @ NodeName s @ ''>'' @ NL @
           concat (map (\<lambda>x. HtmlText e x @ NL)
             (takeWhile (\<lambda>x. \<not> (isHeadingElement x \<and> getHeadingLevel x \<le> getHeadingLevel s))
                (NextAll s)))"
    using assms by (simp add: extractFunctionSection_def maxDepth_def siblingsUntil_NextAll)
  then have "extractFunctionSection maxDepth e s funcName 0 \<noteq> []" by simp
  then have "extractRelevantSection maxDepth e s funcName =
           extractFunctionSection maxDepth e s funcName 0"
    using assms by (simp add: extractRelevantSection_def isFunctionContainer_heading)
  with first show ?thesis by blast
qed

theorem heading_section_witness:
  "isHeadingElement userSection \<and> strings_Contains (Text userSection) ''createUser'' \<and>
   extractFunctionSection maxDepth (sampleEnv []) userSection ''createUser'' 0 =
     ''<h2>createUser</h2>'' @ NL @ ''Creates a user.'' @ NL @ ''Notes'' @ NL \<and>
   extractRelevantSection maxDepth (sampleEnv []) userSection ''createUser'' =
     ''<h2>createUser</h2>'' @ NL @ ''Creates a user.'' @ NL @ ''Notes'' @ NL"
proof -
  have h: "isHeadingElement userSection" by code_simp
  have c: "strings_Contains (Text userSection) ''createUser''" by code_simp
  have r: "''<'' @ NodeName userSection @ ''>'' @ HtmlText (sampleEnv []) userSection @
             ''</'' @ NodeName userSection @ ''>'' @ NL @
           concat (map (\<lambda>x. HtmlText (sampleEnv []) x @ NL)
             (takeWhile (\<lambda>x. \<not> (isHeadingElement x \<and>
                                  getHeadingLevel x \<le> getHeadingLevel userSection))
                (NextAll userSection))) =
           ''<h2>createUser</h2>'' @ NL @ ''Creates a user.'' @ NL @ ''Notes'' @ NL"
    by code_simp
  show ?thesis
    using heading_section [OF h c, of "sampleEnv []"] h c r by simp
qed

subsection \<open>The container heuristic\<close>

lemma relevantAttrs_set:
  "set (relevantAttrs e s) =
     (\<Union>k \<in> {''id'', ''name'', ''data-function'', ''data-method''}. {Attr s k, ToLower e (Attr s k)})"
  by (auto simp: relevantAttrs_def Let_def)

lemma isFunctionContainer_Contains:
  "isFunctionContainer e s funcName \<Longrightarrow> strings_Contains (Text s) funcName"
  by (auto simp: isFunctionContainer_def split: if_splits)

text \<open>
  C4, as the code has it. An element whose text contains the symbol and whose
  \<^verbatim>\<open>id\<close>, \<^verbatim>\<open>name\<close>, \<^verbatim>\<open>data-function\<close> or \<^verbatim>\<open>data-method\<close> attribute, as
  supplied or in lower case, is the symbol or one of its four decorated forms is a
  function container. The test of the text comes first and is not waived.
\<close>

theorem attribute_container:
  assumes "strings_Contains (Text s) funcName"
    and "k \<in> {''id'', ''name'', ''data-function'', ''data-method''}"
    and "v = Attr s k \<or> v = ToLower e (Attr s k)"
    and "v \<in> {funcName, funcName @ ''-method'', funcName @ ''-function'',
               ''method-'' @ funcName, ''function-'' @ funcName}"
  shows "isFunctionContainer e s funcName"
proof -
  from assms(2,3) have "v \<in> set (relevantAttrs e s)"
    unfolding relevantAttrs_set by blast
  moreover from assms(4) have "attrNamesFunction funcName v"
    by (auto simp: attrNamesFunction_def)
  ultimately have "list_ex (attrNamesFunction funcName) (relevantAttrs e s)"
    unfolding list_ex_iff by blast
  with assms(1) show ?thesis by (simp add: isFunctionContainer_def)
qed

text \<open>The claim without the test of the text fails on a \<^verbatim>\<open>div\<close> that has the id and not the word.\<close>

theorem attribute_container_counterexample:
  "Attr attrOnlyDiv ''id'' = ''foo'' \<and> \<not> isFunctionContainer (sampleEnv []) attrOnlyDiv ''foo''"
  by code_simp

theorem attribute_container_witness:
  "strings_Contains (Text methodDiv) ''foo'' \<and>
   ToLower (sampleEnv []) (Attr methodDiv ''id'') = ''foo'' @ ''-method'' \<and>
   isFunctionContainer (sampleEnv []) methodDiv ''foo''"
proof -
  have a: "strings_Contains (Text methodDiv) ''foo''" by code_simp
  have b: "ToLower (sampleEnv []) (Attr methodDiv ''id'') = ''foo'' @ ''-method''" by code_simp
  have "isFunctionContainer (sampleEnv []) methodDiv ''foo''"
    by (rule attribute_container [OF a, of "''id''" "ToLower (sampleEnv []) (Attr methodDiv ''id'')"])
       (simp_all add: b)
  with a b show ?thesis by blast
qed

lemma elementsIn_isElement: "d \<in> set (elementsIn ns) \<Longrightarrow> isElement (Node d)"
  by (induction ns arbitrary: d rule: elementsIn.induct) auto

lemma Find_headingSelector:
  "set (Find s headingSelector) =
     {h \<in> set (elementsIn (children (Node s))). isHeadingElement h}"
  by (auto simp: Find_def headingSelector_def isHeadingElement_def NodeName_def
        dest: elementsIn_isElement)

text \<open>
  C5, as the code has it. A \<^verbatim>\<open>section\<close>, \<^verbatim>\<open>div\<close> or \<^verbatim>\<open>article\<close> is not a
  heading, and when none of its four attributes, as supplied and in lower case, is the
  symbol or a decorated form of it, it is a function container exactly when one of the
  elements below it is a heading of level 1 to 6 with the symbol as its trimmed text.
  The symbol somewhere else in its text, also as the whole trimmed text of an element
  that is not a heading, does not make it one.
\<close>

theorem block_container:
  assumes "NodeName s = ''section'' \<or> NodeName s = ''div'' \<or> NodeName s = ''article''"
    and "\<forall>k \<in> {''id'', ''name'', ''data-function'', ''data-method''}.
           \<forall>v \<in> {Attr s k, ToLower e (Attr s k)}.
             v \<notin> {funcName, funcName @ ''-method'', funcName @ ''-function'',
                    ''method-'' @ funcName, ''function-'' @ funcName}"
  shows "\<not> isHeadingElement s \<and>
         (isFunctionContainer e s funcName \<longleftrightarrow>
           (\<exists>h \<in> set (elementsIn (children (Node s))).
              isHeadingElement h \<and> strings_TrimSpace (Text h) = funcName))"
proof -
  from assms(1) have nh: "\<not> isHeadingElement s" by (auto simp: isHeadingElement_def)
  have na: "\<not> list_ex (attrNamesFunction funcName) (relevantAttrs e s)"
    using assms(2) unfolding list_ex_iff relevantAttrs_set attrNamesFunction_def by auto
  have "strings_Contains (Text s) funcName"
    if "h \<in> set (Find s headingSelector)" and "strings_TrimSpace (Text h) = funcName" for h
  proof -
    have "sublist funcName (Text h)" using TrimSpace_sublist [of "Text h"] that(2) by simp
    moreover have "sublist (Text h) (Text s)" using that(1) by (rule Find_text)
    ultimately show ?thesis
      unfolding strings_Contains_def by (rule sublist_order.order.trans)
  qed
  then have "isFunctionContainer e s funcName \<longleftrightarrow>
           (\<exists>h \<in> set (Find s headingSelector). strings_TrimSpace (Text h) = funcName)"
    using assms(1) nh na by (auto simp: isFunctionContainer_def Let_def list_ex_iff)
  also have "\<dots> \<longleftrightarrow> (\<exists>h \<in> set (elementsIn (children (Node s))).
              isHeadingElement h \<and> strings_TrimSpace (Text h) = funcName)"
    unfolding Find_headingSelector by blast
  finally show ?thesis using nh by blast
qed

text \<open>
  With the attributes compared as supplied only, the claim fails: an id that is the
  symbol in capitals makes a \<^verbatim>\<open>div\<close> without any heading a container.
\<close>

theorem block_container_counterexample:
  "NodeName shoutDiv = ''div'' \<and> \<not> isHeadingElement shoutDiv \<and>
   Attr shoutDiv ''id'' = ''FOO'' \<and> Attr shoutDiv ''name'' = [] \<and>
   Attr shoutDiv ''data-function'' = [] \<and> Attr shoutDiv ''data-method'' = [] \<and>
   map NodeName (elementsIn (children (Node shoutDiv))) = [''p''] \<and>
   isFunctionContainer (sampleEnv []) shoutDiv ''foo''"
  by code_simp

theorem block_container_witness:
  "\<not> isFunctionContainer (sampleEnv []) proseDiv ''foo'' \<and>
   strings_Contains (Text proseDiv) ''foo'' \<and>
   \<not> isFunctionContainer (sampleEnv []) paragraphDiv ''foo'' \<and>
   map NodeName (elementsIn (children (Node paragraphDiv))) = [''p''] \<and>
   strings_TrimSpace (Text paragraphDiv) = ''foo'' \<and>
   isFunctionContainer (sampleEnv []) exactSection ''foo''"
proof -
  have n: "NodeName proseDiv = ''section'' \<or> NodeName proseDiv = ''div'' \<or> NodeName proseDiv = ''article''"
    "NodeName paragraphDiv = ''section'' \<or> NodeName paragraphDiv = ''div'' \<or>
     NodeName paragraphDiv = ''article''"
    "NodeName exactSection = ''section'' \<or> NodeName exactSection = ''div'' \<or>
     NodeName exactSection = ''article''"
    by code_simp+
  have a: "\<forall>k \<in> {''id'', ''name'', ''data-function'', ''data-method''}.
           \<forall>v \<in> {Attr s k, ToLower (sampleEnv []) (Attr s k)}.
             v \<notin> {''foo'', ''foo'' @ ''-method'', ''foo'' @ ''-function'',
                    ''method-'' @ ''foo'', ''function-'' @ ''foo''}"
    if "attributes (Node s) = []" for s
    using that by (simp add: Attr_def attrOrEmpty_def sampleEnv_def)
  have p: "attributes (Node proseDiv) = []" and q: "attributes (Node paragraphDiv) = []"
    and x: "attributes (Node exactSection) = []"
    by code_simp+
  have hp: "\<not> (\<exists>h \<in> set (elementsIn (children (Node proseDiv))).
              isHeadingElement h \<and> strings_TrimSpace (Text h) = ''foo'')"
    by code_simp
  have hq: "\<not> (\<exists>h \<in> set (elementsIn (children (Node paragraphDiv))).
              isHeadingElement h \<and> strings_TrimSpace (Text h) = ''foo'')"
    by code_simp
  have hx: "\<exists>h \<in> set (elementsIn (children (Node exactSection))).
              isHeadingElement h \<and> strings_TrimSpace (Text h) = ''foo''"
    by code_simp
  have c: "strings_Contains (Text proseDiv) ''foo''" by code_simp
  have d: "map NodeName (elementsIn (children (Node paragraphDiv))) = [''p'']" by code_simp
  have t: "strings_TrimSpace (Text paragraphDiv) = ''foo''" by code_simp
  show ?thesis
    using block_container [OF n(1) a [OF p]] block_container [OF n(2) a [OF q]]
      block_container [OF n(3) a [OF x]] hp hq hx c d t
    by blast
qed

subsection \<open>The content of a container\<close>

lemma extractFunctionSection_plain:
  assumes "\<not> isHeadingElement s" and "0 \<le> bound"
  shows "extractFunctionSection bound e s funcName 0 =
           concat (map (\<lambda>c. HtmlText e c @ NL)
             (filter (\<lambda>c. strings_Contains (Text c) funcName) (Find s codeSelector))) @
           (if (NodeName s = ''table'' \<or> NodeName s = ''ul'' \<or> NodeName s = ''ol'') \<and>
               strings_Contains (Text s) funcName
            then HtmlText e s @ NL else [])"
  using assms by (simp add: extractFunctionSection_def fold_append_if Let_def)

text \<open>
  C6, as the code has it. For a function container that is not a heading, the code
  fragments come first: the rendered content of every \<^verbatim>\<open>pre\<close> and \<^verbatim>\<open>code\<close>
  below it whose text contains the symbol, each with a line break, and for a
  \<^verbatim>\<open>table\<close>, \<^verbatim>\<open>ul\<close> or \<^verbatim>\<open>ol\<close> its own content and a line break. When
  there are such fragments they are the result. Only when there are none is the whole
  rendered content of the element returned as it is; no siblings are walked in either
  case.
\<close>

theorem container_content:
  assumes "isFunctionContainer e s funcName" and "\<not> isHeadingElement s"
  shows "extractRelevantSection maxDepth e s funcName =
           (let snippets =
                  concat (map (\<lambda>c. HtmlText e c @ NL)
                    (filter (\<lambda>c. strings_Contains (Text c) funcName) (Find s codeSelector))) @
                  (if NodeName s = ''table'' \<or> NodeName s = ''ul'' \<or> NodeName s = ''ol''
                   then HtmlText e s @ NL else [])
            in if snippets \<noteq> [] then snippets
               else (case Html e s of
                       Some html \<Rightarrow> html
                     | None \<Rightarrow> searchChildren maxDepth e s funcName))"
proof -
  have c: "strings_Contains (Text s) funcName"
    using assms(1) by (rule isFunctionContainer_Contains)
  have "0 \<le> maxDepth" by (simp add: maxDepth_def)
  with assms(2) have "extractFunctionSection maxDepth e s funcName 0 =
           concat (map (\<lambda>c. HtmlText e c @ NL)
             (filter (\<lambda>c. strings_Contains (Text c) funcName) (Find s codeSelector))) @
           (if NodeName s = ''table'' \<or> NodeName s = ''ul'' \<or> NodeName s = ''ol''
            then HtmlText e s @ NL else [])"
    using c by (simp add: extractFunctionSection_plain)
  with assms(1) show ?thesis
    by (simp add: extractRelevantSection_def Let_def)
qed

text \<open>A container with a code fragment that names the symbol gives the fragment, not its whole content.\<close>

theorem container_content_counterexample:
  "isFunctionContainer (sampleEnv []) codeDiv ''foo'' \<and> \<not> isHeadingElement codeDiv \<and>
   Html (sampleEnv []) codeDiv = Some ''<p>foo does things</p><code>foo()</code>'' \<and>
   extractRelevantSection maxDepth (sampleEnv []) codeDiv ''foo'' = ''foo()'' @ NL"
  by code_simp

theorem container_content_witness:
  "isFunctionContainer (sampleEnv []) methodDiv ''foo'' \<and> \<not> isHeadingElement methodDiv \<and>
   extractRelevantSection maxDepth (sampleEnv []) methodDiv ''foo'' =
     ''<h3>Something else</h3><p>mentions foo only once</p>'' \<and>
   extractRelevantSection maxDepth (sampleEnv []) codeDiv ''foo'' = ''foo()'' @ NL"
proof -
  have a: "isFunctionContainer (sampleEnv []) methodDiv ''foo''" by code_simp
  have b: "\<not> isHeadingElement methodDiv" by code_simp
  have c: "isFunctionContainer (sampleEnv []) codeDiv ''foo''" by code_simp
  have d: "\<not> isHeadingElement codeDiv" by code_simp
  have r1: "(let snippets =
                  concat (map (\<lambda>c. HtmlText (sampleEnv []) c @ NL)
                    (filter (\<lambda>c. strings_Contains (Text c) ''foo'') (Find methodDiv codeSelector))) @
                  (if NodeName methodDiv = ''table'' \<or> NodeName methodDiv = ''ul'' \<or> NodeName methodDiv = ''ol''
                   then HtmlText (sampleEnv []) methodDiv @ NL else [])
            in if snippets \<noteq> [] then snippets
               else (case Html (sampleEnv []) methodDiv of
                       Some html \<Rightarrow> html
                     | None \<Rightarrow> searchChildren maxDepth (sampleEnv []) methodDiv ''foo'')) =
            ''<h3>Something else</h3><p>mentions foo only once</p>''"
    by code_simp
  have r2: "(let snippets =
                  concat (map (\<lambda>c. HtmlText (sampleEnv []) c @ NL)
                    (filter (\<lambda>c. strings_Contains (Text c) ''foo'') (Find codeDiv codeSelector))) @
                  (if NodeName codeDiv = ''table'' \<or> NodeName codeDiv = ''ul'' \<or> NodeName codeDiv = ''ol''
                   then HtmlText (sampleEnv []) codeDiv @ NL else [])
            in if snippets \<noteq> [] then snippets
               else (case Html (sampleEnv []) codeDiv of
                       Some html \<Rightarrow> html
                     | None \<Rightarrow> searchChildren maxDepth (sampleEnv []) codeDiv ''foo'')) =
            ''foo()'' @ NL"
    by code_simp
  show ?thesis
    using container_content [OF a b] container_content [OF c d] a b r1 r2 by simp
qed

subsection \<open>The depth bound\<close>

lemma extractFunctionSection_bound:
  "0 \<le> bound \<Longrightarrow>
   extractFunctionSection bound e s funcName 0 = extractFunctionSection maxDepth e s funcName 0"
  by (simp add: extractFunctionSection_def maxDepth_def)

text \<open>
  C10. The section extractor is not recursive and is called with depth 0 only, so its
  guard never fires under the bound 3, and any other bound from 0 upwards gives the
  same sections and the same relevant-section text.
\<close>

theorem depth_guard_idle:
  assumes "0 \<le> bound"
  shows "\<not> 0 > maxDepth \<and>
         extractFunctionSection bound e s funcName 0 =
           extractFunctionSection maxDepth e s funcName 0 \<and>
         searchChildren bound e s funcName = searchChildren maxDepth e s funcName \<and>
         extractRelevantSection bound e s funcName = extractRelevantSection maxDepth e s funcName"
proof -
  have f: "extractFunctionSection bound e x funcName 0 =
           extractFunctionSection maxDepth e x funcName 0" for x
    using assms by (rule extractFunctionSection_bound)
  have s: "searchChildren bound e s funcName = searchChildren maxDepth e s funcName"
    unfolding searchChildren_def f ..
  have "extractRelevantSection bound e s funcName = extractRelevantSection maxDepth e s funcName"
    unfolding extractRelevantSection_def f s ..
  with f s show ?thesis by (simp add: maxDepth_def)
qed

theorem depth_guard_idle_witness:
  "extractRelevantSection 0 (sampleEnv []) userSection ''createUser'' =
     ''<h2>createUser</h2>'' @ NL @ ''Creates a user.'' @ NL @ ''Notes'' @ NL \<and>
   extractRelevantSection 7 (sampleEnv []) userSection ''createUser'' =
     extractRelevantSection maxDepth (sampleEnv []) userSection ''createUser''"
proof -
  have "extractRelevantSection maxDepth (sampleEnv []) userSection ''createUser'' =
     ''<h2>createUser</h2>'' @ NL @ ''Creates a user.'' @ NL @ ''Notes'' @ NL"
    by code_simp
  then show ?thesis
    using depth_guard_idle [of 0 "sampleEnv []" userSection "''createUser''"]
      depth_guard_idle [of 7 "sampleEnv []" userSection "''createUser''"]
    by simp
qed

subsection \<open>Callbacks only append\<close>

lemma handleOnHTML_append:
  "handleOnHTML (xs @ ys) doc content = handleOnHTML ys doc (handleOnHTML xs doc content)"
  by (simp add: handleOnHTML_def)

lemma handleOnHTML_single:
  "handleOnHTML [(sel, f)] doc content = fold f (FindInPage doc sel) content"
  by (simp add: handleOnHTML_def)

lemma handleOnHTML_appending:
  assumes "\<And>sel f x c. (sel, f) \<in> set callbacks \<Longrightarrow> f x c = c @ f x []"
  shows "handleOnHTML callbacks doc content = content @ handleOnHTML callbacks doc []"
  using assms
proof (induction callbacks arbitrary: content rule: rev_induct)
  case Nil
  show ?case by (simp add: handleOnHTML_def)
next
  case (snoc cb callbacks)
  obtain sel f where cb: "cb = (sel, f)" by (cases cb)
  have f: "f x c = c @ f x []" for x c using snoc.prems [of sel f x c] cb by simp
  have rest: "handleOnHTML callbacks doc c = c @ handleOnHTML callbacks doc []" for c
    using snoc.prems by (intro snoc.IH) auto
  have step: "handleOnHTML (callbacks @ [cb]) doc c =
          handleOnHTML callbacks doc c @ concat (map (\<lambda>x. f x []) (FindInPage doc sel))" for c
    unfolding handleOnHTML_append cb handleOnHTML_single using f by (rule fold_appending)
  show ?case
    unfolding step [of content] step [of "[]"] using rest [of content] by simp
qed

lemma titleCallback_appending: "titleCallback x c = c @ titleCallback x []"
  by (simp add: titleCallback_def)

lemma codeCallback_appending: "codeCallback funcName x c = c @ codeCallback funcName x []"
  by (simp add: codeCallback_def Let_def)

lemma fallbackCallback_appending:
  "fallbackCallback e funcName x c = c @ fallbackCallback e funcName x []"
  by (simp add: fallbackCallback_def Let_def)

lemma fold_blocks:
  "fold (\<lambda>s content. case Html e s of Some html \<Rightarrow> content @ NL @ html @ NL | None \<Rightarrow> content)
     xs content =
   content @ concat (map (\<lambda>s. case Html e s of Some html \<Rightarrow> NL @ html @ NL | None \<Rightarrow> []) xs)"
  by (induction xs arbitrary: content) (simp_all split: option.splits)

lemma containerCallback_appending:
  "containerCallback e funcName x c = c @ containerCallback e funcName x []"
  by (simp add: containerCallback_def Let_def fold_blocks)

lemma firstPass_title:
  "firstPass e doc funcName =
     concat (map (\<lambda>t. ''# '' @ Text t @ NL @ NL) (FindInPage doc (Tag ''title''))) @
     handleOnHTML
       (map (\<lambda>selector. (selector, containerCallback e funcName)) (selectors e funcName) @
        [(codeSelector, codeCallback funcName)]) doc []"
proof -
  let ?rest = "map (\<lambda>selector. (selector, containerCallback e funcName)) (selectors e funcName) @
        [(codeSelector, codeCallback funcName)]"
  have app: "f x c = c @ f x []" if "(sel, f) \<in> set ?rest" for sel f x c
  proof -
    from that have "f = containerCallback e funcName \<or> f = codeCallback funcName" by auto
    then show ?thesis
    proof
      assume "f = containerCallback e funcName"
      then show ?thesis by (simp only: containerCallback_appending [of e funcName x c])
    next
      assume "f = codeCallback funcName"
      then show ?thesis by (simp only: codeCallback_appending [of funcName x c])
    qed
  qed
  have rest: "handleOnHTML ?rest doc c = c @ handleOnHTML ?rest doc []" for c
    using app by (rule handleOnHTML_appending)
  have title: "handleOnHTML [(Tag ''title'', titleCallback)] doc [] =
      concat (map (\<lambda>t. ''# '' @ Text t @ NL @ NL) (FindInPage doc (Tag ''title'')))"
    unfolding handleOnHTML_single
    by (simp add: fold_appending [of titleCallback, OF titleCallback_appending] titleCallback_def)
  have "firstPass e doc funcName =
          handleOnHTML ?rest doc (handleOnHTML [(Tag ''title'', titleCallback)] doc [])"
    unfolding firstPass_def by (rule handleOnHTML_append)
  also have "\<dots> = handleOnHTML [(Tag ''title'', titleCallback)] doc [] @ handleOnHTML ?rest doc []"
    by (rule rest)
  finally show ?thesis unfolding title .
qed

subsection \<open>The second pass and the result\<close>

text \<open>
  C2, as the code has it. When the URL is accepted and the first request brings a page,
  the second pass runs (a second request is sent) exactly when the symbol is not empty
  and the text of the first pass does not contain it, which includes the empty text.
  With an empty symbol the second pass never runs, also when the first pass wrote
  nothing.
\<close>

theorem fallback_condition:
  assumes "ParseRequestURI e docURL = None" and "Visit e docURL 0 = Page doc"
  shows "(snd (ScrapeDocumentation e docURL funcName) = 2 \<longleftrightarrow>
            funcName \<noteq> [] \<and> \<not> strings_Contains (firstPass e doc funcName) funcName) \<and>
         (snd (ScrapeDocumentation e docURL funcName) = 1 \<longleftrightarrow>
            \<not> (funcName \<noteq> [] \<and> \<not> strings_Contains (firstPass e doc funcName) funcName))"
  using assms
  by (simp add: ScrapeDocumentation_def Let_def split: response.splits)

text \<open>Without a symbol a page that yields nothing is not fetched again.\<close>

theorem fallback_condition_counterexample:
  "firstPass (sampleEnv barePage) barePage [] = [] \<and>
   ScrapeDocumentation (sampleEnv barePage) ''https://example.com/docs'' [] =
     (Inl NoContentExtracted, 1)"
  by code_simp

theorem fallback_condition_witness:
  "ParseRequestURI (sampleEnv headingPage) ''https://example.com/docs'' = None \<and>
   Visit (sampleEnv headingPage) ''https://example.com/docs'' 0 = Page headingPage \<and>
   snd (ScrapeDocumentation (sampleEnv headingPage) ''https://example.com/docs'' ''foo'') = 2 \<and>
   snd (ScrapeDocumentation (sampleEnv barePage) ''https://example.com/docs'' []) = 1"
proof -
  have u: "ParseRequestURI (sampleEnv p) ''https://example.com/docs'' = None" for p
    by (simp add: sampleEnv_def)
  have v: "Visit (sampleEnv p) ''https://example.com/docs'' 0 = Page p" for p
    by (simp add: sampleEnv_def)
  have a: "''foo'' \<noteq> [] \<and> \<not> strings_Contains (firstPass (sampleEnv headingPage) headingPage ''foo'') ''foo''"
    by code_simp
  show ?thesis
    using fallback_condition [OF u v, of headingPage "''foo''"]
      fallback_condition [OF u v, of barePage "[]"] a u v
    by simp
qed

text \<open>
  C3, as the code has it. The text that the passes have written is returned as it is,
  without trimming: when it is the empty string the call fails, with the
  function-not-found error for a symbol and the no-content error without one, and any
  other text, white space included, is the result.
\<close>

theorem final_buffer:
  assumes "ParseRequestURI e docURL = None"
    and "Visit e docURL 0 = Page doc" and "Visit e docURL 1 = Page doc2"
  shows "fst (ScrapeDocumentation e docURL funcName) =
           (let buffer =
                  (if funcName \<noteq> [] \<and> \<not> strings_Contains (firstPass e doc funcName) funcName
                   then secondPass e doc2 funcName else firstPass e doc funcName)
            in if buffer = [] then
                 (if funcName \<noteq> [] then Inl (FunctionNotFound funcName)
                  else Inl NoContentExtracted)
               else Inr buffer)"
proof (cases "funcName \<noteq> [] \<and> \<not> strings_Contains (firstPass e doc funcName) funcName")
  case True
  then show ?thesis
    using assms by (simp add: ScrapeDocumentation_def Let_def)
next
  case False
  then show ?thesis
    using assms by (auto simp add: ScrapeDocumentation_def Let_def)
qed

text \<open>Two line breaks are returned as the result, though trimming them leaves nothing.\<close>

theorem final_buffer_counterexample:
  "ScrapeDocumentation (sampleEnv prePage) ''https://example.com/docs'' [] = (Inr (NL @ NL), 1) \<and>
   strings_TrimSpace (NL @ NL) = []"
  by code_simp

theorem final_buffer_witness:
  "fst (ScrapeDocumentation (sampleEnv prePage) ''https://example.com/docs'' []) = Inr (NL @ NL) \<and>
   fst (ScrapeDocumentation (sampleEnv headingPage) ''https://example.com/docs'' ''foo'') =
     Inl (FunctionNotFound ''foo'') \<and>
   fst (ScrapeDocumentation (sampleEnv barePage) ''https://example.com/docs'' []) =
     Inl NoContentExtracted"
proof -
  have u: "ParseRequestURI (sampleEnv p) ''https://example.com/docs'' = None" for p
    by (simp add: sampleEnv_def)
  have v: "Visit (sampleEnv p) ''https://example.com/docs'' k = Page p" for p k
    by (simp add: sampleEnv_def)
  have a: "firstPass (sampleEnv prePage) prePage [] = NL @ NL" by code_simp
  have b: "\<not> strings_Contains (firstPass (sampleEnv headingPage) headingPage ''foo'') ''foo''"
    by code_simp
  have c: "secondPass (sampleEnv headingPage) headingPage ''foo'' = []" by code_simp
  have d: "firstPass (sampleEnv barePage) barePage [] = []" by code_simp
  show ?thesis
    using final_buffer [OF u v v, of prePage "[]"]
      final_buffer [OF u v v, of headingPage "''foo''"]
      final_buffer [OF u v v, of barePage "[]"] a b c d
    by (simp add: NL_def)
qed

lemma isContentElement_iff:
  "isContentElement name \<longleftrightarrow> name \<in> set contentElements"
  by (auto simp: isContentElement_def list_ex_iff)

text \<open>
  C7, as the code has it. The second pass hands an element to the relevant-section
  extractor exactly when its text contains the symbol and its tag is one of the
  nineteen content elements; what the pass writes is the text extracted from these
  elements, in document order. The list has paragraphs, lists, tables and asides, it
  has \<^verbatim>\<open>header\<close>, \<^verbatim>\<open>footer\<close> and \<^verbatim>\<open>nav\<close> as well, and it has no heading.
\<close>

theorem fallback_whitelist:
  "secondPass e doc funcName =
     concat (map (\<lambda>el. let extractedText = extractRelevantSection maxDepth e el funcName
                        in if extractedText \<noteq> [] then extractedText @ NL @ NL else [])
       (filter (\<lambda>el. strings_Contains (Text el) funcName \<and> isContentElement (NodeName el))
          (FindInPage doc Wildcard))) \<and>
   (isContentElement name \<longleftrightarrow>
      name \<in> {''div'', ''section'', ''article'', ''main'', ''p'', ''pre'', ''code'',
               ''table'', ''ul'', ''ol'', ''dl'', ''blockquote'', ''figure'', ''details'',
               ''summary'', ''aside'', ''header'', ''footer'', ''nav''})"
proof -
  have "fold (fallbackCallback e funcName) xs content =
          content @ concat (map (\<lambda>el. let extractedText = extractRelevantSection maxDepth e el funcName
                        in if extractedText \<noteq> [] then extractedText @ NL @ NL else [])
       (filter (\<lambda>el. strings_Contains (Text el) funcName \<and> isContentElement (NodeName el)) xs))"
    for xs content
    by (induction xs arbitrary: content) (simp_all add: fallbackCallback_def Let_def)
  then have "secondPass e doc funcName =
     concat (map (\<lambda>el. let extractedText = extractRelevantSection maxDepth e el funcName
                        in if extractedText \<noteq> [] then extractedText @ NL @ NL else [])
       (filter (\<lambda>el. strings_Contains (Text el) funcName \<and> isContentElement (NodeName el))
          (FindInPage doc Wildcard)))"
    by (simp add: secondPass_def handleOnHTML_single)
  moreover have "isContentElement name \<longleftrightarrow>
      name \<in> {''div'', ''section'', ''article'', ''main'', ''p'', ''pre'', ''code'',
               ''table'', ''ul'', ''ol'', ''dl'', ''blockquote'', ''figure'', ''details'',
               ''summary'', ''aside'', ''header'', ''footer'', ''nav''}"
    unfolding isContentElement_iff contentElements_def by simp
  ultimately show ?thesis by blast
qed

text \<open>
  A heading that names the symbol is not handed over, and the page that has nothing else
  gives no text; the same heading inside a \<^verbatim>\<open>nav\<close> is found through the \<^verbatim>\<open>nav\<close>.
\<close>

theorem fallback_whitelist_counterexample:
  "isHeadingElement fooHeading \<and> strings_Contains (Text fooHeading) ''foo'' \<and>
   \<not> isContentElement (NodeName fooHeading) \<and>
   fallbackCallback (sampleEnv headingPage) ''foo'' fooHeading [] = [] \<and>
   secondPass (sampleEnv headingPage) headingPage ''foo'' = [] \<and>
   isContentElement ''nav'' \<and> isContentElement ''header'' \<and> isContentElement ''footer'' \<and>
   secondPass (sampleEnv navPage) navPage ''foo'' = ''<h2>foo</h2>'' @ NL @ NL @ NL @ NL @ NL"
  by code_simp

theorem fallback_whitelist_witness:
  "secondPass (sampleEnv navPage) navPage ''foo'' = ''<h2>foo</h2>'' @ NL @ NL @ NL @ NL @ NL \<and>
   isContentElement ''nav'' \<and> \<not> isContentElement ''h2''"
proof -
  have "concat (map (\<lambda>el. let extractedText = extractRelevantSection maxDepth (sampleEnv navPage) el ''foo''
                        in if extractedText \<noteq> [] then extractedText @ NL @ NL else [])
       (filter (\<lambda>el. strings_Contains (Text el) ''foo'' \<and> isContentElement (NodeName el))
          (FindInPage navPage Wildcard))) = ''<h2>foo</h2>'' @ NL @ NL @ NL @ NL @ NL"
    by code_simp
  then show ?thesis
    using fallback_whitelist [of "sampleEnv navPage" navPage "''foo''" "''nav''"]
      fallback_whitelist [of "sampleEnv navPage" navPage "''foo''" "''h2''"]
    by simp
qed

subsection \<open>Code blocks and the title\<close>

text \<open>
  C8, as the code has it. Whatever the containers gave, the first pass ends with the
  code blocks: every \<^verbatim>\<open>pre\<close> and \<^verbatim>\<open>code\<close> element of the page with a text that is
  not empty and that contains the symbol (every such element when there is no symbol),
  in document order, its text between two fence lines, after the title and the section
  text. Tables are not among them.
\<close>

theorem code_harvest:
  "firstPass e doc funcName =
     handleOnHTML
       ((Tag ''title'', titleCallback) #
        map (\<lambda>selector. (selector, containerCallback e funcName)) (selectors e funcName))
       doc [] @
     concat (map (\<lambda>el. NL @ ''```'' @ NL @ Text el @ NL @ ''```'' @ NL)
       (filter (\<lambda>el. (funcName = [] \<or> strings_Contains (Text el) funcName) \<and> Text el \<noteq> [])
          (FindInPage doc codeSelector)))"
proof -
  have "fold (codeCallback funcName) xs content =
          content @ concat (map (\<lambda>el. NL @ ''```'' @ NL @ Text el @ NL @ ''```'' @ NL)
            (filter (\<lambda>el. (funcName = [] \<or> strings_Contains (Text el) funcName) \<and> Text el \<noteq> []) xs))"
    for xs content
    by (induction xs arbitrary: content) (simp_all add: codeCallback_def Let_def)
  note harvest = this
  have "firstPass e doc funcName =
          handleOnHTML [(codeSelector, codeCallback funcName)] doc
            (handleOnHTML
               ((Tag ''title'', titleCallback) #
                map (\<lambda>selector. (selector, containerCallback e funcName)) (selectors e funcName))
               doc [])"
    unfolding firstPass_def
    using handleOnHTML_append
            [of "(Tag ''title'', titleCallback) #
                 map (\<lambda>selector. (selector, containerCallback e funcName)) (selectors e funcName)"
                "[(codeSelector, codeCallback funcName)]" doc "[]"]
    by simp
  then show ?thesis
    unfolding handleOnHTML_single harvest .
qed

text \<open>A table that names the symbol, outside every container, leaves the first pass empty.\<close>

theorem code_harvest_counterexample:
  "map Text (FindInPage tablePage (Tag ''table'')) = [''foo''] \<and>
   firstPass (sampleEnv tablePage) tablePage ''foo'' = [] \<and>
   firstPass (sampleEnv tablePage) tablePage [] = []"
  by code_simp

theorem code_harvest_witness:
  "firstPass (sampleEnv titledPage) titledPage ''foo'' =
     ''# API'' @ NL @ NL @ NL @ ''```'' @ NL @ ''foo(1)'' @ NL @ ''```'' @ NL \<and>
   firstPass (sampleEnv titledPage) titledPage [] =
     ''# API'' @ NL @ NL @ NL @ ''```'' @ NL @ ''foo(1)'' @ NL @ ''```'' @ NL @
     NL @ ''```'' @ NL @ ''bar(2)'' @ NL @ ''```'' @ NL"
proof -
  have a1: "handleOnHTML
       ((Tag ''title'', titleCallback) #
        map (\<lambda>selector. (selector, containerCallback (sampleEnv titledPage) ''foo''))
          (selectors (sampleEnv titledPage) ''foo''))
       titledPage [] = ''# API'' @ NL @ NL"
    by code_simp
  have a2: "handleOnHTML
       ((Tag ''title'', titleCallback) #
        map (\<lambda>selector. (selector, containerCallback (sampleEnv titledPage) []))
          (selectors (sampleEnv titledPage) []))
       titledPage [] = ''# API'' @ NL @ NL"
    by code_simp
  have b: "concat (map (\<lambda>el. NL @ ''```'' @ NL @ Text el @ NL @ ''```'' @ NL)
       (filter (\<lambda>el. (''foo'' = [] \<or> strings_Contains (Text el) ''foo'') \<and> Text el \<noteq> [])
          (FindInPage titledPage codeSelector))) = NL @ ''```'' @ NL @ ''foo(1)'' @ NL @ ''```'' @ NL"
    by code_simp
  have c: "concat (map (\<lambda>el. NL @ ''```'' @ NL @ Text el @ NL @ ''```'' @ NL)
       (filter (\<lambda>el. ([] = ([]::string) \<or> strings_Contains (Text el) []) \<and> Text el \<noteq> [])
          (FindInPage titledPage codeSelector))) =
       NL @ ''```'' @ NL @ ''foo(1)'' @ NL @ ''```'' @ NL @ NL @ ''```'' @ NL @ ''bar(2)'' @ NL @ ''```'' @ NL"
    by code_simp
  show ?thesis
    unfolding code_harvest [of "sampleEnv titledPage" titledPage "''foo''"]
      code_harvest [of "sampleEnv titledPage" titledPage "[]"] a1 a2 b c
    by simp
qed

text \<open>
  C9. The first pass starts its text with the line \<^verbatim>\<open># title\<close> and an empty line
  for every \<^verbatim>\<open>title\<close> element, whatever the symbol is. So for a page with a title
  whose text is not empty and no symbol, the call succeeds with the text of the first
  pass after one request, whether or not a container selector matches.
\<close>

theorem title_line:
  assumes "ParseRequestURI e docURL = None" and "Visit e docURL 0 = Page doc"
    and "t \<in> set (FindInPage doc (Tag ''title''))" and "Text t \<noteq> []"
  shows "prefix (concat (map (\<lambda>t. ''# '' @ Text t @ NL @ NL) (FindInPage doc (Tag ''title''))))
           (firstPass e doc funcName) \<and>
         sublist (''# '' @ Text t @ NL @ NL) (firstPass e doc funcName) \<and>
         ScrapeDocumentation e docURL [] = (Inr (firstPass e doc []), 1)"
proof -
  let ?titles = "concat (map (\<lambda>t. ''# '' @ Text t @ NL @ NL) (FindInPage doc (Tag ''title'')))"
  have p: "prefix ?titles (firstPass e doc f)" for f
    unfolding firstPass_title [of e doc f] by simp
  have "''# '' @ Text t @ NL @ NL \<in> set (map (\<lambda>t. ''# '' @ Text t @ NL @ NL) (FindInPage doc (Tag ''title'')))"
    using assms(3) by auto
  then have "sublist (''# '' @ Text t @ NL @ NL) ?titles" by (rule sublist_concat_member)
  then have s: "sublist (''# '' @ Text t @ NL @ NL) (firstPass e doc f)" for f
    using p [of f] prefix_imp_sublist sublist_order.order.trans by blast
  from s [of "[]"] have "firstPass e doc [] \<noteq> []" by auto
  then have "ScrapeDocumentation e docURL [] = (Inr (firstPass e doc []), 1)"
    using assms(1,2) by (simp add: ScrapeDocumentation_def Let_def)
  with p s show ?thesis by blast
qed

theorem title_line_witness:
  "ScrapeDocumentation (sampleEnv titledPage) ''https://example.com/docs'' [] =
     (Inr (''# API'' @ NL @ NL @ NL @ ''```'' @ NL @ ''foo(1)'' @ NL @ ''```'' @ NL @
           NL @ ''```'' @ NL @ ''bar(2)'' @ NL @ ''```'' @ NL), 1) \<and>
   prefix (''# API'' @ NL @ NL) (firstPass (sampleEnv titledPage) titledPage ''foo'')"
proof -
  let ?t = "\<lparr>Node = ElementNode ''title'' [] [TextNode ''API''], Following = []\<rparr>"
  have u: "ParseRequestURI (sampleEnv titledPage) ''https://example.com/docs'' = None"
    by (simp add: sampleEnv_def)
  have v: "Visit (sampleEnv titledPage) ''https://example.com/docs'' 0 = Page titledPage"
    by (simp add: sampleEnv_def)
  have ts: "FindInPage titledPage (Tag ''title'') = [?t]" by code_simp
  then have t: "?t \<in> set (FindInPage titledPage (Tag ''title''))" by simp
  have n: "Text ?t \<noteq> []" by code_simp
  have tx: "Text ?t = ''API''" by code_simp
  have f: "firstPass (sampleEnv titledPage) titledPage [] =
     ''# API'' @ NL @ NL @ NL @ ''```'' @ NL @ ''foo(1)'' @ NL @ ''```'' @ NL @
     NL @ ''```'' @ NL @ ''bar(2)'' @ NL @ ''```'' @ NL"
    by code_simp
  show ?thesis
    using title_line [OF u v t n, of "''foo''"] unfolding ts f by (simp add: tx)
qed

end
